theory Spec2Isabelle
  imports Complex_Main "HOL-Library.Word" "HOL-Library.Log_Nat"
begin

section \<open>Strings, errors and the external libraries\<close>

text \<open>
  A JavaScript string is a sequence of UTF-16 code units. Literals of the source are
  written as Isabelle strings and embedded with \<open>utf16\<close> (all of them are ASCII).
\<close>

type_synonym js_string = "16 word list"

definition utf16 :: "string \<Rightarrow> js_string" where
  "utf16 s = map (\<lambda>c. of_nat (of_char c)) s"

text \<open>
  \<open>String.prototype.trim\<close> removes the ECMAScript WhiteSpace and LineTerminator
  code units from both ends: TAB, LF, VT, FF, CR, SP, NBSP, U+1680, U+2000..U+200A,
  U+2028, U+2029, U+202F, U+205F, U+3000 and U+FEFF.
\<close>

definition is_space :: "16 word \<Rightarrow> bool" where
  "is_space c \<longleftrightarrow>
     c = 0x09 \<or> c = 0x0A \<or> c = 0x0B \<or> c = 0x0C \<or> c = 0x0D \<or> c = 0x20 \<or> c = 0xA0 \<or>
     c = 0x1680 \<or> (0x2000 \<le> c \<and> c \<le> 0x200A) \<or> c = 0x2028 \<or> c = 0x2029 \<or>
     c = 0x202F \<or> c = 0x205F \<or> c = 0x3000 \<or> c = 0xFEFF"

definition trim :: "js_string \<Rightarrow> js_string" where
  "trim s = rev (dropWhile is_space (rev (dropWhile is_space s)))"

text \<open>A thrown value: an \<open>Error\<close> object with its message.\<close>

datatype js_error = Error js_string

text \<open>
  The packages \<open>bip39\<close>, \<open>ripple-bip32\<close> and \<open>ripple-keypairs\<close> are not part of the
  repository; the program is modelled for any implementation of the six entry points it
  calls. A call runs in the ambient state \<open>'w\<close> of the process, which it may read and
  change, and either returns a value or throws.
\<close>

type_synonym ('a, 'w) call = "'w \<Rightarrow> (js_error + 'a) \<times> 'w"

record key_pairs =
  privateKey :: js_string
  publicKey :: js_string

record ('w, 'seed, 'node) lib =
  validateMnemonic :: "js_string \<Rightarrow> (bool, 'w) call"
  mnemonicToSeed :: "js_string \<Rightarrow> ('seed, 'w) call"
  fromSeedBuffer :: "'seed \<Rightarrow> ('node, 'w) call"
  derivePath :: "'node \<Rightarrow> js_string \<Rightarrow> ('node, 'w) call"
  getKeyPairs :: "'node \<Rightarrow> (key_pairs, 'w) call"
  deriveAddress :: "js_string \<Rightarrow> (js_string, 'w) call"

text \<open>Sequencing of calls: an exception skips the rest and keeps the state reached.\<close>

definition return :: "'a \<Rightarrow> ('a, 'w) call" where
  "return x w = (Inr x, w)"

definition throw :: "js_error \<Rightarrow> ('a, 'w) call" where
  "throw e w = (Inl e, w)"

definition bind :: "('a, 'w) call \<Rightarrow> ('a \<Rightarrow> ('b, 'w) call) \<Rightarrow> ('b, 'w) call" where
  "bind m f w = (case m w of (Inl e, w') \<Rightarrow> (Inl e, w') | (Inr x, w') \<Rightarrow> f x w')"

section \<open>The derivation engine\<close>

text \<open>The path literal of line 19 of \<open>xrp.js\<close>: \<open>m/44'/144'/0'/0/0\<close>.\<close>

definition derivation_path :: string where
  "derivation_path = ''m/44'/144'/0'/0/0''"

definition deriveRippleAddress ::
  "('w, 'seed, 'node) lib \<Rightarrow> js_string \<Rightarrow> (js_string, 'w) call" where
  "deriveRippleAddress L mnemonic =
     bind (validateMnemonic L mnemonic) (\<lambda>valid.
       if \<not> valid then throw (Error (utf16 ''Invalid mnemonic''))
       else
         bind (mnemonicToSeed L mnemonic) (\<lambda>seed.
         bind (fromSeedBuffer L seed) (\<lambda>master.
         bind (derivePath L master (utf16 derivation_path)) (\<lambda>node.
         bind (getKeyPairs L node) (\<lambda>keyPair.
         bind (deriveAddress L (publicKey keyPair)) (\<lambda>address.
         return address))))))"

section \<open>Numbers\<close>

text \<open>
  JavaScript numbers are IEEE 754 doubles. The counters \<open>totalLines\<close> and
  \<open>processedLines\<close> hold natural numbers; \<open>x++\<close> is exact below \<open>2^53\<close> and leaves
  \<open>2^53\<close> unchanged (\<open>2^53 + 1\<close> rounds back to \<open>2^53\<close>).
\<close>

definition js_incr :: "nat \<Rightarrow> nat" where
  "js_incr n = (if n < 2 ^ 53 then n + 1 else n)"

text \<open>
  The result of an arithmetic operation is the exact result rounded to the nearest
  double, ties to the even significand. \<open>binade x\<close> is the exponent \<open>e\<close> with
  \<open>2^e \<le> x < 2^(e+1)\<close>; a double in that binade is a multiple of \<open>2^(e-52)\<close>. The
  operands of the program lie between \<open>2^-53\<close> and \<open>100 * 2^53\<close>, where doubles are
  normal and no operation overflows, so the exponent range is not modelled.
\<close>

datatype js_number = Num rat | Infinity | NaN

definition pow2 :: "int \<Rightarrow> rat" where
  "pow2 e = (if 0 \<le> e then 2 ^ nat e else 1 / 2 ^ nat (- e))"

definition round_nearest_even :: "rat \<Rightarrow> int" where
  "round_nearest_even x =
     (let n = \<lfloor>x\<rfloor>; d = x - of_int n
      in if d < 1 / 2 then n else if 1 / 2 < d then n + 1 else if even n then n else n + 1)"

definition binade :: "rat \<Rightarrow> int" where
  "binade x = (if 1 \<le> x then bitlen \<lfloor>x\<rfloor> - 1 else - bitlen (\<lceil>1 / x\<rceil> - 1))"

text \<open>Only values that are not negative occur.\<close>

definition round_double :: "rat \<Rightarrow> rat" where
  "round_double x =
     (if x \<le> 0 then 0
      else let u = pow2 (binade x - 52) in of_int (round_nearest_even (x / u)) * u)"

text \<open>\<open>processedLines / totalLines\<close>, on two counters.\<close>

definition js_div :: "nat \<Rightarrow> nat \<Rightarrow> js_number" where
  "js_div p t =
     (if t = 0 then (if p = 0 then NaN else Infinity)
      else Num (round_double (of_nat p / of_nat t)))"

text \<open>\<open>x * 100\<close>, for \<open>x\<close> not negative.\<close>

definition js_mul100 :: "js_number \<Rightarrow> js_number" where
  "js_mul100 x = (case x of Num q \<Rightarrow> Num (round_double (q * 100)) | Infinity \<Rightarrow> Infinity | NaN \<Rightarrow> NaN)"

definition js_floor :: "js_number \<Rightarrow> js_number" where
  "js_floor x = (case x of Num q \<Rightarrow> Num (of_int \<lfloor>q\<rfloor>) | Infinity \<Rightarrow> Infinity | NaN \<Rightarrow> NaN)"

text \<open>Line 82: \<open>Math.floor((processedLines / totalLines) * 100)\<close>.\<close>

definition percent :: "nat \<Rightarrow> nat \<Rightarrow> js_number" where
  "percent p t = js_floor (js_mul100 (js_div p t))"

section \<open>The batch runner\<close>

text \<open>
  The write stream of line 41. \<open>chunks\<close> is what the file holds, oldest first;
  \<open>fault k\<close> is the error, if any, that the callback of the \<open>k\<close>-th call of \<open>write\<close>
  receives; \<open>attempts\<close> counts the calls; \<open>ended\<close> records \<open>writeStream.end()\<close>.
\<close>

record write_stream =
  chunks :: "js_string list"
  fault :: "nat \<Rightarrow> js_error option"
  attempts :: nat
  ended :: bool

text \<open>
  Lines 62-67 and 70-75: the promise around \<open>writeStream.write\<close> rejects with the
  error of the callback, and resolves otherwise.
\<close>

definition write_chunk :: "js_string \<Rightarrow> write_stream \<Rightarrow> js_error option \<times> write_stream" where
  "write_chunk chunk ws =
     (case fault ws (attempts ws) of
        Some err \<Rightarrow> (Some err, ws\<lparr>attempts := attempts ws + 1\<rparr>)
      | None \<Rightarrow> (None, ws\<lparr>chunks := chunks ws @ [chunk], attempts := attempts ws + 1\<rparr>))"

text \<open>
  What the program prints: the progress line of line 83 and the notice of line 87 on the
  standard output; on the diagnostic channel the report of line 69 (\<open>Error deriving
  address for mnemonic\<close>, with the mnemonic and the error) and the report of line 90
  (\<open>Error processing mnemonics\<close>, with the error).
\<close>

datatype out_event =
  Progress js_number nat nat
| ResultsWritten js_string

datatype err_event =
  ErrorDeriving js_string js_error
| ErrorProcessing js_error

record 'w state =
  world :: 'w
  writeStream :: write_stream
  totalLines :: nat
  processedLines :: nat
  stdout :: "out_event list"
  stderr :: "err_event list"

text \<open>Lines 68-76, the \<open>catch\<close> of the loop body: log, then write the error record.
  A rejection of this write leaves the loop.\<close>

definition catch_block :: "js_string \<Rightarrow> js_error \<Rightarrow> 'w state \<Rightarrow> js_error option \<times> 'w state" where
  "catch_block mnemonic err s =
     (let s1 = s\<lparr>stderr := stderr s @ [ErrorDeriving mnemonic err]\<rparr>
      in case write_chunk (mnemonic @ utf16 ''|Error deriving address'' @ [0x0A]) (writeStream s1) of
           (r, ws) \<Rightarrow> (r, s1\<lparr>writeStream := ws\<rparr>))"

text \<open>Lines 59-67, the \<open>try\<close> of the loop body: derive, then write the record. Both
  the derivation and the write are inside the \<open>try\<close>.\<close>

definition try_block ::
  "('w, 'seed, 'node) lib \<Rightarrow> js_string \<Rightarrow> 'w state \<Rightarrow> js_error option \<times> 'w state" where
  "try_block L mnemonic s =
     (case deriveRippleAddress L mnemonic (world s) of
        (Inl err, w) \<Rightarrow> catch_block mnemonic err (s\<lparr>world := w\<rparr>)
      | (Inr address, w) \<Rightarrow>
          (case write_chunk (mnemonic @ utf16 ''|'' @ address @ [0x0A]) (writeStream s) of
             (None, ws) \<Rightarrow> (None, s\<lparr>world := w, writeStream := ws\<rparr>)
           | (Some err, ws) \<Rightarrow> catch_block mnemonic err (s\<lparr>world := w, writeStream := ws\<rparr>)))"

text \<open>Lines 79-83: count the line and show the progress.\<close>

definition show_progress :: "'w state \<Rightarrow> 'w state" where
  "show_progress s =
     (let s1 = s\<lparr>processedLines := js_incr (processedLines s)\<rparr>
      in s1\<lparr>stdout := stdout s1 @
           [Progress (percent (processedLines s1) (totalLines s1)) (processedLines s1) (totalLines s1)]\<rparr>)"

text \<open>Lines 57-83, the body of the loop for one line.\<close>

definition processLine ::
  "('w, 'seed, 'node) lib \<Rightarrow> js_string \<Rightarrow> 'w state \<Rightarrow> js_error option \<times> 'w state" where
  "processLine L line s =
     (let mnemonic = trim line
      in if mnemonic \<noteq> [] then
           (case try_block L mnemonic s of
              (Some err, s1) \<Rightarrow> (Some err, s1)
            | (None, s1) \<Rightarrow> (None, show_progress s1))
         else (None, show_progress s))"

text \<open>Lines 56-84, the loop over the lines of the second reader.\<close>

fun processLines ::
  "('w, 'seed, 'node) lib \<Rightarrow> js_string list \<Rightarrow> 'w state \<Rightarrow> js_error option \<times> 'w state" where
  "processLines L [] s = (None, s)"
| "processLines L (line # rest) s =
     (case processLine L line s of
        (Some err, s1) \<Rightarrow> (Some err, s1)
      | (None, s1) \<Rightarrow> processLines L rest s1)"

text \<open>Line 47, the first reader: one increment for each line.\<close>

definition countLines :: "js_string list \<Rightarrow> nat \<Rightarrow> nat" where
  "countLines lines n = fold (\<lambda>line. js_incr) lines n"

text \<open>
  \<open>deriveAddressesFromFile\<close>. The file is read twice, \<open>lines1\<close> by the first reader and
  \<open>lines2\<close> by the second. The \<open>try\<close> of lines 34-88 only creates the streams and
  registers the two listeners, which does not throw; the listener of \<open>close\<close> runs later,
  outside it, and the promise it returns is used by nobody: an error leaving the loop is
  an unhandled rejection, and the \<open>catch\<close> of lines 89-91 is not run for it. Both
  readers are taken to deliver their lines: a file that cannot be read is outside the
  model.
\<close>

datatype outcome = Completed | UnhandledRejection js_error

definition initial :: "'w \<Rightarrow> (nat \<Rightarrow> js_error option) \<Rightarrow> 'w state" where
  "initial w f =
     \<lparr>world = w,
      writeStream = \<lparr>chunks = [], fault = f, attempts = 0, ended = False\<rparr>,
      totalLines = 0, processedLines = 0, stdout = [], stderr = []\<rparr>"

definition deriveAddressesFromFile ::
  "('w, 'seed, 'node) lib \<Rightarrow> js_string list \<Rightarrow> js_string list \<Rightarrow> js_string \<Rightarrow>
     'w \<Rightarrow> (nat \<Rightarrow> js_error option) \<Rightarrow> outcome \<times> 'w state" where
  "deriveAddressesFromFile L lines1 lines2 outputFilePath w f =
     (let s0 = initial w f;
          s1 = s0\<lparr>totalLines := countLines lines1 (totalLines s0)\<rparr>
      in case processLines L lines2 s1 of
           (Some err, s2) \<Rightarrow> (UnhandledRejection err, s2)
         | (None, s2) \<Rightarrow>
             (Completed,
              s2\<lparr>writeStream := (writeStream s2)\<lparr>ended := True\<rparr>,
                 stdout := stdout s2 @ [ResultsWritten outputFilePath]\<rparr>))"

section \<open>Observing the library calls\<close>

text \<open>
  Which entry points a run calls, and with which arguments, is read off an instrumented
  library: \<open>traced L\<close> behaves as \<open>L\<close> and appends every call to a log kept beside the
  ambient state.
\<close>

datatype lib_call =
  ValidateMnemonic js_string
| MnemonicToSeed js_string
| FromSeedBuffer
| DerivePath js_string
| GetKeyPairs
| DeriveAddress js_string

definition logged :: "lib_call \<Rightarrow> ('a, 'w) call \<Rightarrow> ('a, 'w \<times> lib_call list) call" where
  "logged c f = (\<lambda>(w, cs). case f w of (r, w') \<Rightarrow> (r, (w', cs @ [c])))"

definition traced :: "('w, 'seed, 'node) lib \<Rightarrow> ('w \<times> lib_call list, 'seed, 'node) lib" where
  "traced L =
     \<lparr>validateMnemonic = (\<lambda>m. logged (ValidateMnemonic m) (validateMnemonic L m)),
      mnemonicToSeed = (\<lambda>m. logged (MnemonicToSeed m) (mnemonicToSeed L m)),
      fromSeedBuffer = (\<lambda>seed. logged FromSeedBuffer (fromSeedBuffer L seed)),
      derivePath = (\<lambda>node path. logged (DerivePath path) (derivePath L node path)),
      getKeyPairs = (\<lambda>node. logged GetKeyPairs (getKeyPairs L node)),
      deriveAddress = (\<lambda>key. logged (DeriveAddress key) (deriveAddress L key))\<rparr>"

text \<open>
  A library is deterministic when what a call returns or throws does not depend on the
  ambient state.
\<close>

definition state_free :: "('a, 'w) call \<Rightarrow> bool" where
  "state_free f \<longleftrightarrow> (\<forall>w w'. fst (f w) = fst (f w'))"

definition deterministic :: "('w, 'seed, 'node) lib \<Rightarrow> bool" where
  "deterministic L \<longleftrightarrow>
     (\<forall>m. state_free (validateMnemonic L m)) \<and>
     (\<forall>m. state_free (mnemonicToSeed L m)) \<and>
     (\<forall>seed. state_free (fromSeedBuffer L seed)) \<and>
     (\<forall>node path. state_free (derivePath L node path)) \<and>
     (\<forall>node. state_free (getKeyPairs L node)) \<and>
     (\<forall>key. state_free (deriveAddress L key))"

text \<open>
  The notation of a derivation path, which \<open>derivePath\<close> of the library reads: the text
  is split at \<open>/\<close>, the first part is \<open>m\<close>, every other part is a decimal index, hardened
  when an apostrophe follows it.
\<close>

datatype segment = Hardened nat | Normal nat

fun split_on :: "char \<Rightarrow> string \<Rightarrow> string list" where
  "split_on c [] = [[]]"
| "split_on c (x # xs) =
     (if x = c then [] # split_on c xs
      else (case split_on c xs of [] \<Rightarrow> [[x]] | part # parts \<Rightarrow> (x # part) # parts))"

definition digit :: "char \<Rightarrow> nat option" where
  "digit c =
     (let n = of_char c :: nat in if 48 \<le> n \<and> n \<le> 57 then Some (n - 48) else None)"

fun decimal :: "nat \<Rightarrow> string \<Rightarrow> nat option" where
  "decimal n [] = Some n"
| "decimal n (c # cs) = (case digit c of None \<Rightarrow> None | Some d \<Rightarrow> decimal (10 * n + d) cs)"

definition parse_segment :: "string \<Rightarrow> segment option" where
  "parse_segment s =
     (if s = [] then None
      else if last s = CHR 0x27 then
        (if butlast s = [] then None else map_option Hardened (decimal 0 (butlast s)))
      else map_option Normal (decimal 0 s))"

definition parse_path :: "string \<Rightarrow> segment list option" where
  "parse_path p =
     (case split_on CHR ''/'' p of
        [] \<Rightarrow> None
      | m # parts \<Rightarrow> if m = ''m'' then those (map parse_segment parts) else None)"

section \<open>What a run is expected to leave behind\<close>

text \<open>
  The sink accepts every write when no call of \<open>write\<close> fails. A line is blank when
  nothing is left of it after trimming. \<open>record_text\<close> is the record for a mnemonic and
  the outcome of its derivation; \<open>lines_records\<close> lists the records of the lines that are
  not blank, in their order, each derived in the ambient state its predecessors left
  (\<open>lines_world\<close>); \<open>lines_errors\<close> lists the failures reported on the way.
\<close>

definition writable :: "write_stream \<Rightarrow> bool" where
  "writable ws \<longleftrightarrow> (\<forall>k. fault ws k = None)"

definition blank :: "js_string \<Rightarrow> bool" where
  "blank line \<longleftrightarrow> trim line = []"

definition record_text :: "js_string \<Rightarrow> js_error + js_string \<Rightarrow> js_string" where
  "record_text mnemonic r =
     (case r of
        Inr address \<Rightarrow> mnemonic @ utf16 ''|'' @ address @ [0x0A]
      | Inl err \<Rightarrow> mnemonic @ utf16 ''|Error deriving address'' @ [0x0A])"

fun lines_world :: "('w, 'seed, 'node) lib \<Rightarrow> js_string list \<Rightarrow> 'w \<Rightarrow> 'w" where
  "lines_world L [] w = w"
| "lines_world L (line # rest) w =
     lines_world L rest (if blank line then w else snd (deriveRippleAddress L (trim line) w))"

fun lines_records :: "('w, 'seed, 'node) lib \<Rightarrow> js_string list \<Rightarrow> 'w \<Rightarrow> js_string list" where
  "lines_records L [] w = []"
| "lines_records L (line # rest) w =
     (if blank line then lines_records L rest w
      else record_text (trim line) (fst (deriveRippleAddress L (trim line) w)) #
           lines_records L rest (snd (deriveRippleAddress L (trim line) w)))"

fun lines_errors :: "('w, 'seed, 'node) lib \<Rightarrow> js_string list \<Rightarrow> 'w \<Rightarrow> err_event list" where
  "lines_errors L [] w = []"
| "lines_errors L (line # rest) w =
     (if blank line then lines_errors L rest w
      else (case fst (deriveRippleAddress L (trim line) w) of
              Inl err \<Rightarrow> [ErrorDeriving (trim line) err] | Inr address \<Rightarrow> []) @
           lines_errors L rest (snd (deriveRippleAddress L (trim line) w)))"

text \<open>A percentage: a whole number from 0 to 100.\<close>

definition in_percent_range :: "js_number \<Rightarrow> bool" where
  "in_percent_range x =
     (case x of Num q \<Rightarrow> 0 \<le> q \<and> q \<le> 100 \<and> q = of_int \<lfloor>q\<rfloor> | Infinity \<Rightarrow> False | NaN \<Rightarrow> False)"

text \<open>The progress reports of \<open>n\<close> lines, after \<open>p\<close> lines, with the total \<open>t\<close>.\<close>

definition progress_events :: "nat \<Rightarrow> nat \<Rightarrow> nat \<Rightarrow> out_event list" where
  "progress_events t p n = map (\<lambda>k. Progress (percent k t) k t) [Suc p ..< Suc (p + n)]"

section \<open>A small library for concrete runs\<close>

text \<open>
  A stand-in library with which the theorems are run on concrete inputs. Its ambient
  state counts the calls made; it accepts two mnemonics, refuses every path but the one
  above, and encodes the key \<open>k\<close> as \<open>r\<close> followed by \<open>k\<close>.
\<close>

definition stub :: "(nat, js_string, js_string) lib" where
  "stub =
     \<lparr>validateMnemonic = (\<lambda>m w. (Inr (m = utf16 ''zoo'' \<or> m = utf16 ''abandon about''), w + 1)),
      mnemonicToSeed = (\<lambda>m w. (Inr m, w + 1)),
      fromSeedBuffer = (\<lambda>seed w. (Inr seed, w + 1)),
      derivePath = (\<lambda>node path w.
        (if path = utf16 ''m/44'/144'/0'/0/0'' then Inr node else Inl (Error (utf16 ''path'')), w + 1)),
      getKeyPairs = (\<lambda>node w. (Inr \<lparr>privateKey = rev node, publicKey = node\<rparr>, w + 1)),
      deriveAddress = (\<lambda>key w. (Inr (utf16 ''r'' @ key), w + 1))\<rparr>"

definition no_fault :: "nat \<Rightarrow> js_error option" where
  "no_fault k = None"

text \<open>A sink that is unwritable from the \<open>n\<close>-th write on (\<open>ENOSPC\<close>).\<close>

definition fault_from :: "nat \<Rightarrow> nat \<Rightarrow> js_error option" where
  "fault_from n k = (if n \<le> k then Some (Error (utf16 ''ENOSPC'')) else None)"

section \<open>The derivation engine: lemmas\<close>

lemma state_free_return: "state_free (return x)"
  by (simp add: state_free_def return_def)

lemma state_free_throw: "state_free (throw e)"
  by (simp add: state_free_def throw_def)

lemma state_free_bind:
  assumes m: "state_free m" and f: "\<And>x. state_free (f x)"
  shows "state_free (bind m f)"
  unfolding state_free_def
proof (intro allI)
  fix w w'
  obtain r v where mw: "m w = (r, v)" by (cases "m w")
  obtain r' v' where mw': "m w' = (r', v')" by (cases "m w'")
  from m mw mw' have same: "r' = r"
    unfolding state_free_def by (metis fst_conv)
  show "fst (bind m f w) = fst (bind m f w')"
  proof (cases r)
    case (Inl e)
    with mw mw' same show ?thesis by (simp add: bind_def)
  next
    case (Inr x)
    from f [of x] have "fst (f x v) = fst (f x v')"
      unfolding state_free_def by blast
    with Inr mw mw' same show ?thesis by (simp add: bind_def)
  qed
qed

lemma state_free_derive:
  assumes "deterministic L"
  shows "state_free (deriveRippleAddress L m)"
  unfolding deriveRippleAddress_def
  using assms
  by (auto simp: deterministic_def intro!: state_free_bind state_free_return state_free_throw)

lemma invalid_only_validates:
  assumes "fst (validateMnemonic L m w) = Inr False"
  shows "deriveRippleAddress L m w = (Inl (Error (utf16 ''Invalid mnemonic'')), snd (validateMnemonic L m w))"
  using assms by (cases "validateMnemonic L m w") (simp add: deriveRippleAddress_def bind_def throw_def)

lemma traced_validate:
  "validateMnemonic (traced L) m (w, cs) =
     (fst (validateMnemonic L m w), snd (validateMnemonic L m w), cs @ [ValidateMnemonic m])"
  by (simp add: traced_def logged_def split: prod.splits)

lemma derive_paths:
  "DerivePath p \<in> set (snd (snd (deriveRippleAddress (traced L) m (w, cs)))) \<Longrightarrow>
     p = utf16 derivation_path \<or> DerivePath p \<in> set cs"
  by (auto simp: deriveRippleAddress_def bind_def throw_def return_def traced_def logged_def
      split: prod.splits sum.splits if_splits)

lemma derive_success:
  assumes "validateMnemonic L m w0 = (Inr True, w1)"
    and "mnemonicToSeed L m w1 = (Inr seed, w2)"
    and "fromSeedBuffer L seed w2 = (Inr master, w3)"
    and "derivePath L master (utf16 derivation_path) w3 = (Inr node, w4)"
    and "getKeyPairs L node w4 = (Inr keys, w5)"
    and "deriveAddress L (publicKey keys) w5 = (Inr address, w6)"
  shows "deriveRippleAddress L m w0 = (Inr address, w6)"
    and "deriveRippleAddress (traced L) m (w0, cs) =
      (Inr address, w6, cs @ [ValidateMnemonic m, MnemonicToSeed m, FromSeedBuffer,
         DerivePath (utf16 derivation_path), GetKeyPairs, DeriveAddress (publicKey keys)])"
  using assms
  by (simp_all add: deriveRippleAddress_def bind_def return_def traced_def logged_def)

lemma parse_derivation_path:
  "parse_path derivation_path = Some [Hardened 44, Hardened 144, Hardened 0, Normal 0, Normal 0]"
  by (simp add: parse_path_def derivation_path_def parse_segment_def digit_def)

section \<open>Numbers: lemmas\<close>

text \<open>The counters.\<close>

lemma js_incr_funpow: "(js_incr ^^ k) n = (if n < 2 ^ 53 then min (n + k) (2 ^ 53) else n)"
proof (induction k)
  case 0
  show ?case by simp
next
  case (Suc k)
  then show ?case by (auto simp: js_incr_def)
qed

lemma js_incr_funpow_ge: "n \<le> (js_incr ^^ k) n"
  by (simp add: js_incr_funpow)

lemma js_incr_positive: "1 \<le> js_incr n"
  by (simp add: js_incr_def)

text \<open>Rounding keeps a value between 0 and a whole number it does not exceed.\<close>

lemma round_nearest_even_le:
  assumes "x \<le> of_int m"
  shows "round_nearest_even x \<le> m"
proof (cases "x = of_int m")
  case True
  then show ?thesis by (simp add: round_nearest_even_def)
next
  case False
  with assms have "x < of_int m" by simp
  then have "\<lfloor>x\<rfloor> < m" by (simp add: floor_less_iff)
  then show ?thesis by (simp add: round_nearest_even_def Let_def)
qed

lemma round_nearest_even_nonneg:
  assumes "0 \<le> x"
  shows "0 \<le> round_nearest_even x"
proof -
  from assms have "0 \<le> \<lfloor>x\<rfloor>" by simp
  then show ?thesis by (simp add: round_nearest_even_def Let_def)
qed

lemma bitlen_mono: "a \<le> b \<Longrightarrow> bitlen a \<le> bitlen b"
  by (simp add: bitlen_def floorlog_mono)

lemma bitlen_100: "bitlen 100 = 7"
  by code_simp

lemma binade_le:
  assumes "x \<le> 100"
  shows "binade x \<le> 6"
proof (cases "1 \<le> x")
  case True
  from assms have "\<lfloor>x\<rfloor> \<le> 100" by (simp add: floor_le_iff)
  from bitlen_mono [OF this] have "bitlen \<lfloor>x\<rfloor> \<le> 7" by (simp add: bitlen_100)
  with True show ?thesis by (simp add: binade_def)
next
  case False
  have "0 \<le> bitlen (\<lceil>1 / x\<rceil> - 1)" by (rule bitlen_nonneg)
  with False show ?thesis by (simp add: binade_def)
qed

lemma round_double_nonneg: "0 \<le> round_double x"
proof (cases "x \<le> 0")
  case True
  then show ?thesis by (simp add: round_double_def)
next
  case False
  then have "0 \<le> x / pow2 (binade x - 52)" by (simp add: pow2_def)
  from round_nearest_even_nonneg [OF this] False show ?thesis
    by (simp add: round_double_def Let_def pow2_def)
qed

lemma round_double_le:
  assumes "x \<le> of_int c" and "c \<le> 100" and "0 \<le> c"
  shows "round_double x \<le> of_int c"
proof (cases "x \<le> 0")
  case True
  with assms(3) show ?thesis by (simp add: round_double_def)
next
  case False
  define k where "k = nat (52 - binade x)"
  have "(of_int c :: rat) \<le> of_int 100" using assms(2) by (simp only: of_int_le_iff)
  with assms(1) have "x \<le> 100" by simp
  from binade_le [OF this] have neg: "\<not> 0 \<le> binade x - 52" by simp
  then have u: "pow2 (binade x - 52) = 1 / 2 ^ k" by (simp add: pow2_def k_def)
  have "x / (1 / 2 ^ k) = x * 2 ^ k" by simp
  also have "\<dots> \<le> of_int c * 2 ^ k" using assms(1) by simp
  also have "\<dots> = of_int (c * 2 ^ k)" by simp
  finally have "round_nearest_even (x / (1 / 2 ^ k)) \<le> c * 2 ^ k"
    by (rule round_nearest_even_le)
  then have "(of_int (round_nearest_even (x / (1 / 2 ^ k))) :: rat) \<le> of_int (c * 2 ^ k)"
    by (simp only: of_int_le_iff)
  then have "of_int (round_nearest_even (x / (1 / 2 ^ k))) / 2 ^ k \<le> (of_int c * 2 ^ k :: rat) / 2 ^ k"
    by (simp only: of_int_mult of_int_power of_int_numeral divide_right_mono zero_le_power zero_le_numeral)
  then have "of_int (round_nearest_even (x / (1 / 2 ^ k))) * (1 / 2 ^ k) \<le> (of_int c :: rat)"
    by simp
  with False u show ?thesis by (simp add: round_double_def Let_def)
qed

lemma percent_in_range:
  assumes "p \<le> t" and "0 < t"
  shows "in_percent_range (percent p t)"
proof -
  let ?q = "round_double (of_nat p / of_nat t)"
  from assms have "(of_nat p / of_nat t :: rat) \<le> of_int 1" by simp
  from round_double_le [OF this] have q1: "?q \<le> 1" by simp
  have q0: "0 \<le> ?q" by (rule round_double_nonneg)
  from q1 have "?q * 100 \<le> of_int 100" by simp
  from round_double_le [OF this] have r1: "round_double (?q * 100) \<le> 100" by simp
  have r0: "0 \<le> round_double (?q * 100)" by (rule round_double_nonneg)
  from r1 have f1: "\<lfloor>round_double (?q * 100)\<rfloor> \<le> 100" by (simp add: floor_le_iff)
  from r0 have f0: "0 \<le> \<lfloor>round_double (?q * 100)\<rfloor>" by simp
  from f0 f1 assms show ?thesis
    by (simp add: percent_def js_div_def js_mul100_def js_floor_def in_percent_range_def)
qed

text \<open>The error of rounding: at most half a unit in the last place, which is at most
  the value times \<open>2^-53\<close>.\<close>

lemma round_nearest_even_error: "\<bar>of_int (round_nearest_even x) - x\<bar> \<le> 1 / 2"
proof -
  have f: "of_int \<lfloor>x\<rfloor> \<le> x" "x < of_int \<lfloor>x\<rfloor> + 1" by linarith+
  then show ?thesis
    by (auto simp: round_nearest_even_def Let_def abs_le_iff)
qed

lemma pow2_positive: "0 < pow2 e"
  by (simp add: pow2_def)

lemma pow2_diff: "pow2 (e - 52) = pow2 e / 2 ^ 52"
proof -
  have "pow2 e = 2 powi e" for e
    by (simp add: pow2_def power_int_def field_simps)
  then show ?thesis
    by (simp add: power_int_diff)
qed

lemma binade_lower:
  assumes "0 < x"
  shows "pow2 (binade x) \<le> x"
proof (cases "1 \<le> x")
  case True
  then have n: "0 < \<lfloor>x\<rfloor>" by simp
  from bitlen_bounds [OF n] have "2 ^ nat (bitlen \<lfloor>x\<rfloor> - 1) \<le> \<lfloor>x\<rfloor>" by simp
  then have "(of_int (2 ^ nat (bitlen \<lfloor>x\<rfloor> - 1)) :: rat) \<le> of_int \<lfloor>x\<rfloor>"
    by (simp only: of_int_le_iff)
  also have "\<dots> \<le> x" by simp
  finally have le: "(2 ^ nat (bitlen \<lfloor>x\<rfloor> - 1) :: rat) \<le> x" by simp
  from n have "1 \<le> bitlen \<lfloor>x\<rfloor>"
    using bitlen_bounds [OF n] by (cases "bitlen \<lfloor>x\<rfloor> \<le> 0") auto
  with True le show ?thesis by (simp add: binade_def pow2_def)
next
  case False
  define m where "m = \<lceil>1 / x\<rceil> - 1"
  define k where "k = bitlen m"
  from False assms have "1 < 1 / x" by simp
  then have "1 < \<lceil>1 / x\<rceil>" by (simp add: less_ceiling_iff)
  then have m: "0 < m" by (simp add: m_def)
  from bitlen_bounds [OF m] have up: "m < 2 ^ nat k" by (simp add: k_def)
  then have "\<lceil>1 / x\<rceil> \<le> 2 ^ nat k" by (simp add: m_def)
  then have "1 / x \<le> of_int (2 ^ nat k)" by (simp only: ceiling_le_iff)
  then have inv: "1 / x \<le> 2 ^ nat k" by simp
  have kpos: "0 < k"
    using bitlen_bounds [OF m] m unfolding k_def by (cases "bitlen m \<le> 0") auto
  from inv assms have "1 \<le> x * 2 ^ nat k" by (simp add: field_simps)
  then have "1 / 2 ^ nat k \<le> x" by (simp add: field_simps)
  with False kpos show ?thesis
    by (simp add: binade_def pow2_def m_def [symmetric] k_def [symmetric])
qed

lemma round_double_error:
  assumes "0 \<le> x"
  shows "\<bar>round_double x - x\<bar> \<le> x / 2 ^ 53"
proof (cases "x = 0")
  case True
  then show ?thesis by (simp add: round_double_def)
next
  case False
  with assms have pos: "0 < x" by simp
  define u where "u = pow2 (binade x - 52)"
  have u: "0 < u" by (simp add: u_def pow2_positive)
  have "\<bar>of_int (round_nearest_even (x / u)) - x / u\<bar> \<le> 1 / 2"
    by (rule round_nearest_even_error)
  then have "\<bar>of_int (round_nearest_even (x / u)) - x / u\<bar> * u \<le> 1 / 2 * u"
    using u by (simp only: mult_le_cancel_right_pos)
  moreover have "\<bar>of_int (round_nearest_even (x / u)) - x / u\<bar> * u =
      \<bar>of_int (round_nearest_even (x / u)) * u - x\<bar>"
  proof -
    have "\<bar>of_int (round_nearest_even (x / u)) - x / u\<bar> * u =
        \<bar>(of_int (round_nearest_even (x / u)) - x / u) * u\<bar>"
      using u by (simp add: abs_mult)
    also have "(of_int (round_nearest_even (x / u)) - x / u) * u =
        of_int (round_nearest_even (x / u)) * u - x"
      using u by (simp add: left_diff_distrib)
    finally show ?thesis .
  qed
  ultimately have e: "\<bar>of_int (round_nearest_even (x / u)) * u - x\<bar> \<le> u / 2" by simp
  have "u = pow2 (binade x) / 2 ^ 52" by (simp add: u_def pow2_diff)
  also have "\<dots> \<le> x / 2 ^ 52" using binade_lower [OF pos] by (simp add: divide_right_mono)
  finally have "u / 2 \<le> x / 2 ^ 53" by simp
  with e pos show ?thesis by (simp add: round_double_def Let_def u_def)
qed

lemma percent_close:
  assumes "p \<le> t" and "0 < t"
  shows "\<exists>k. percent p t = Num (of_int k) \<and> \<bar>k - int ((100 * p) div t)\<bar> \<le> 1"
proof -
  define q :: rat where "q = of_nat p / of_nat t"
  define q1 where "q1 = round_double q"
  define r where "r = round_double (q1 * 100)"
  have q: "0 \<le> q" "q \<le> 1" using assms by (simp_all add: q_def)
  have q1: "0 \<le> q1" by (simp add: q1_def round_double_nonneg)
  have e1: "\<bar>q1 - q\<bar> \<le> q / 2 ^ 53" unfolding q1_def by (rule round_double_error [OF q(1)])
  from q1 have y: "0 \<le> q1 * 100" by simp
  have e2: "\<bar>r - q1 * 100\<bar> \<le> q1 * 100 / 2 ^ 53" unfolding r_def by (rule round_double_error [OF y])
  have p53: "(2::rat) ^ 53 = 9007199254740992" by simp
  from e1 have a: "q1 - q \<le> q / 2 ^ 53 \<and> - (q1 - q) \<le> q / 2 ^ 53"
    by (simp only: abs_le_iff)
  from e2 have b: "r - q1 * 100 \<le> q1 * 100 / 2 ^ 53 \<and> - (r - q1 * 100) \<le> q1 * 100 / 2 ^ 53"
    by (simp only: abs_le_iff)
  have close: "r - q * 100 < 1 \<and> - (r - q * 100) < 1"
    using a b q q1 unfolding p53 by linarith
  have ex: "\<lfloor>q * 100\<rfloor> = int ((100 * p) div t)"
  proof -
    have "q * 100 = of_int (int (100 * p)) / of_int (int t)" by (simp add: q_def)
    then have "\<lfloor>q * 100\<rfloor> = int (100 * p) div int t" by (simp only: floor_divide_of_int_eq)
    then show ?thesis by (simp add: zdiv_int)
  qed
  from close have "\<lfloor>r\<rfloor> - \<lfloor>q * 100\<rfloor> \<le> 1 \<and> - (\<lfloor>r\<rfloor> - \<lfloor>q * 100\<rfloor>) \<le> 1" by linarith
  then have "\<bar>\<lfloor>r\<rfloor> - \<lfloor>q * 100\<rfloor>\<bar> \<le> 1" by (simp only: abs_le_iff)
  with ex have "\<bar>\<lfloor>r\<rfloor> - int ((100 * p) div t)\<bar> \<le> 1" by simp
  moreover have "percent p t = Num (of_int \<lfloor>r\<rfloor>)"
    using assms(2) by (simp add: percent_def js_div_def js_mul100_def js_floor_def r_def q1_def q_def)
  ultimately show ?thesis by blast
qed

section \<open>The batch runner: lemmas\<close>

lemma write_chunk_ok:
  "fault ws (attempts ws) = None \<Longrightarrow>
     write_chunk c ws = (None, ws\<lparr>chunks := chunks ws @ [c], attempts := attempts ws + 1\<rparr>)"
  by (simp add: write_chunk_def)

lemma write_chunk_fault [simp]: "fault (snd (write_chunk c ws)) = fault ws"
  by (simp add: write_chunk_def split: option.splits)

lemma try_block_ok:
  assumes "fault (writeStream s) (attempts (writeStream s)) = None"
  shows "try_block L m s =
    (None, s\<lparr>world := snd (deriveRippleAddress L m (world s)),
              writeStream := (writeStream s)
                \<lparr>chunks := chunks (writeStream s) @ [record_text m (fst (deriveRippleAddress L m (world s)))],
                 attempts := attempts (writeStream s) + 1\<rparr>,
              stderr := stderr s @
                (case fst (deriveRippleAddress L m (world s)) of
                   Inl err \<Rightarrow> [ErrorDeriving m err] | Inr address \<Rightarrow> [])\<rparr>)"
  using assms
  by (cases "deriveRippleAddress L m (world s)")
     (auto simp: try_block_def catch_block_def write_chunk_ok record_text_def Let_def
       split: sum.splits)

lemma processLine_blank:
  "blank line \<Longrightarrow> processLine L line s = (None, show_progress s)"
  by (simp add: processLine_def blank_def)

lemma processLine_ok:
  assumes "fault (writeStream s) (attempts (writeStream s)) = None" and "\<not> blank line"
  shows "processLine L line s =
    (None, show_progress
      (s\<lparr>world := snd (deriveRippleAddress L (trim line) (world s)),
         writeStream := (writeStream s)
           \<lparr>chunks := chunks (writeStream s) @
              [record_text (trim line) (fst (deriveRippleAddress L (trim line) (world s)))],
            attempts := attempts (writeStream s) + 1\<rparr>,
         stderr := stderr s @
           (case fst (deriveRippleAddress L (trim line) (world s)) of
              Inl err \<Rightarrow> [ErrorDeriving (trim line) err] | Inr address \<Rightarrow> [])\<rparr>))"
  using assms by (simp add: processLine_def blank_def try_block_ok Let_def)

lemma show_progress_simps [simp]:
  "world (show_progress s) = world s"
  "writeStream (show_progress s) = writeStream s"
  "totalLines (show_progress s) = totalLines s"
  "processedLines (show_progress s) = js_incr (processedLines s)"
  "stderr (show_progress s) = stderr s"
  "stdout (show_progress s) = stdout s @
     [Progress (percent (js_incr (processedLines s)) (totalLines s)) (js_incr (processedLines s)) (totalLines s)]"
  by (simp_all add: show_progress_def Let_def)

lemma processLines_writable:
  assumes "writable (writeStream s)"
  shows "fst (processLines L ls s) = None \<and>
         writable (writeStream (snd (processLines L ls s))) \<and>
         chunks (writeStream (snd (processLines L ls s))) =
           chunks (writeStream s) @ lines_records L ls (world s) \<and>
         world (snd (processLines L ls s)) = lines_world L ls (world s)"
  using assms
proof (induction ls arbitrary: s)
  case Nil
  then show ?case by simp
next
  case (Cons line rest)
  show ?case
  proof (cases "blank line")
    case True
    have w: "writable (writeStream (show_progress s))" using Cons.prems by simp
    from Cons.IH [OF w] True show ?thesis
      by (simp add: processLine_blank)
  next
    case False
    let ?s1 = "snd (processLine L line s)"
    from Cons.prems have ok: "fault (writeStream s) (attempts (writeStream s)) = None"
      by (simp add: writable_def)
    note eq = processLine_ok [OF ok False, of L]
    have w: "writable (writeStream ?s1)"
      using Cons.prems by (simp add: eq writable_def)
    from Cons.IH [OF w] False show ?thesis
      by (simp add: eq)
  qed
qed

lemma lines_world_append:
  "lines_world L (xs @ ys) w = lines_world L ys (lines_world L xs w)"
  by (induction xs arbitrary: w) simp_all

lemma lines_records_append:
  "lines_records L (xs @ ys) w = lines_records L xs w @ lines_records L ys (lines_world L xs w)"
  by (induction xs arbitrary: w) simp_all

lemma lines_errors_append:
  "lines_errors L (xs @ ys) w = lines_errors L xs w @ lines_errors L ys (lines_world L xs w)"
  by (induction xs arbitrary: w) simp_all

lemma length_lines_records:
  "length (lines_records L ls w) = length (filter (\<lambda>line. \<not> blank line) ls)"
  by (induction ls arbitrary: w) simp_all

lemma lines_records_shape:
  "list_all2 (\<lambda>line chunk. \<exists>payload. chunk = trim line @ utf16 ''|'' @ payload @ [0x0A])
     (filter (\<lambda>line. \<not> blank line) ls) (lines_records L ls w)"
proof (induction ls arbitrary: w)
  case Nil
  show ?case by simp
next
  case (Cons line rest)
  have "\<exists>payload. record_text (trim line) r = trim line @ utf16 ''|'' @ payload @ [0x0A]" for r
    by (cases r) (simp_all add: record_text_def utf16_def)
  with Cons show ?case by simp
qed

lemma processLines_stderr:
  assumes "writable (writeStream s)"
  shows "stderr (snd (processLines L ls s)) = stderr s @ lines_errors L ls (world s)"
  using assms
proof (induction ls arbitrary: s)
  case Nil
  then show ?case by simp
next
  case (Cons line rest)
  show ?case
  proof (cases "blank line")
    case True
    have w: "writable (writeStream (show_progress s))" using Cons.prems by simp
    from Cons.IH [OF w] True show ?thesis
      by (simp add: processLine_blank)
  next
    case False
    from Cons.prems have ok: "fault (writeStream s) (attempts (writeStream s)) = None"
      by (simp add: writable_def)
    note eq = processLine_ok [OF ok False, of L]
    have w: "writable (writeStream (snd (processLine L line s)))"
      using Cons.prems by (simp add: eq writable_def)
    from Cons.IH [OF w] False show ?thesis
      by (simp add: eq)
  qed
qed

lemma countLines_funpow: "countLines ls n = (js_incr ^^ length ls) n"
  unfolding countLines_def by (induction ls arbitrary: n) (simp_all add: funpow_swap1)

lemma countLines_length: "countLines ls 0 = min (length ls) (2 ^ 53)"
  by (simp add: countLines_funpow js_incr_funpow)

lemma processLine_totalLines [simp]: "totalLines (snd (processLine L line s)) = totalLines s"
  by (auto simp: processLine_def try_block_def catch_block_def Let_def
      split: prod.splits sum.splits option.splits)

lemma processLines_totalLines [simp]: "totalLines (snd (processLines L ls s)) = totalLines s"
proof (induction ls arbitrary: s)
  case Nil
  show ?case by simp
next
  case (Cons line rest)
  obtain r s1 where p: "processLine L line s = (r, s1)" by (cases "processLine L line s")
  have "totalLines s1 = totalLines s" using processLine_totalLines [of L line s] p by simp
  with Cons p show ?case by (cases r) simp_all
qed

lemma processLine_counts:
  assumes "fault (writeStream s) (attempts (writeStream s)) = None"
  shows "processedLines (snd (processLine L line s)) = js_incr (processedLines s)"
    and "stdout (snd (processLine L line s)) = stdout s @
          [Progress (percent (js_incr (processedLines s)) (totalLines s))
             (js_incr (processedLines s)) (totalLines s)]"
  using assms processLine_ok [OF assms, of line L] processLine_blank [of line L s]
  by (cases "blank line"; simp)+

lemma processLines_progress:
  assumes "writable (writeStream s)" and "processedLines s + length ls \<le> 2 ^ 53"
  shows "processedLines (snd (processLines L ls s)) = processedLines s + length ls \<and>
         stdout (snd (processLines L ls s)) =
           stdout s @ progress_events (totalLines s) (processedLines s) (length ls)"
  using assms
proof (induction ls arbitrary: s)
  case Nil
  then show ?case by (simp add: progress_events_def)
next
  case (Cons line rest)
  let ?s1 = "snd (processLine L line s)"
  from Cons.prems have ok: "fault (writeStream s) (attempts (writeStream s)) = None"
    by (simp add: writable_def)
  have none: "fst (processLine L line s) = None"
    using processLine_ok [OF ok, of line L] processLine_blank [of line L s]
    by (cases "blank line") simp_all
  have w: "writable (writeStream ?s1)"
    using Cons.prems(1) processLine_ok [OF ok, of line L] processLine_blank [of line L s]
    by (cases "blank line") (simp_all add: writable_def)
  from Cons.prems(2) have lt: "processedLines s < 2 ^ 53" by simp
  then have p1: "processedLines ?s1 = Suc (processedLines s)"
    by (simp add: processLine_counts(1) [OF ok] js_incr_def)
  have o1: "stdout ?s1 = stdout s @
      [Progress (percent (Suc (processedLines s)) (totalLines s)) (Suc (processedLines s)) (totalLines s)]"
    using lt by (simp add: processLine_counts(2) [OF ok] js_incr_def)
  have le: "processedLines ?s1 + length rest \<le> 2 ^ 53"
    using Cons.prems(2) p1 by simp
  have step: "processLines L (line # rest) s = processLines L rest ?s1"
    using none by (cases "processLine L line s") simp
  have up: "[Suc (processedLines s) ..< Suc (processedLines s + length (line # rest))] =
      Suc (processedLines s) # [Suc (Suc (processedLines s)) ..< Suc (Suc (processedLines s) + length rest)]"
    by (simp add: upt_rec)
  from Cons.IH [OF w le] show ?case
    unfolding step progress_events_def up by (simp add: p1 o1)
qed

text \<open>A whole run with a sink that accepts every write.\<close>

lemma writable_initial:
  "writable (writeStream ((initial w no_fault)\<lparr>totalLines := n\<rparr>))"
  by (simp add: initial_def writable_def no_fault_def)

lemma run_writable:
  "fst (deriveAddressesFromFile L lines1 lines2 path w no_fault) = Completed"
  "chunks (writeStream (snd (deriveAddressesFromFile L lines1 lines2 path w no_fault))) =
     lines_records L lines2 w"
  "world (snd (deriveAddressesFromFile L lines1 lines2 path w no_fault)) = lines_world L lines2 w"
  "stderr (snd (deriveAddressesFromFile L lines1 lines2 path w no_fault)) = lines_errors L lines2 w"
  "totalLines (snd (deriveAddressesFromFile L lines1 lines2 path w no_fault)) = countLines lines1 0"
proof -
  let ?s1 = "(initial w no_fault)\<lparr>totalLines := countLines lines1 (totalLines (initial w no_fault))\<rparr>"
  obtain r s2 where p: "processLines L lines2 ?s1 = (r, s2)"
    by (cases "processLines L lines2 ?s1")
  have w1: "writable (writeStream ?s1)" by (rule writable_initial)
  from processLines_writable [OF w1, of L lines2] p
  have r: "r = None" and c: "chunks (writeStream s2) = lines_records L lines2 w"
    and wd: "world s2 = lines_world L lines2 w"
    by (simp_all add: initial_def)
  from processLines_stderr [OF w1, of L lines2] p
  have e: "stderr s2 = lines_errors L lines2 w" by (simp add: initial_def)
  have t: "totalLines s2 = countLines lines1 0"
    using processLines_totalLines [of L lines2 ?s1] unfolding p by (simp add: initial_def)
  have run: "deriveAddressesFromFile L lines1 lines2 path w no_fault =
      (Completed, s2\<lparr>writeStream := (writeStream s2)\<lparr>ended := True\<rparr>,
                      stdout := stdout s2 @ [ResultsWritten path]\<rparr>)"
    using p r by (simp add: deriveAddressesFromFile_def Let_def)
  show "fst (deriveAddressesFromFile L lines1 lines2 path w no_fault) = Completed"
    by (simp add: run)
  show "chunks (writeStream (snd (deriveAddressesFromFile L lines1 lines2 path w no_fault))) =
     lines_records L lines2 w"
    by (simp add: run c)
  show "world (snd (deriveAddressesFromFile L lines1 lines2 path w no_fault)) = lines_world L lines2 w"
    by (simp add: run wd)
  show "stderr (snd (deriveAddressesFromFile L lines1 lines2 path w no_fault)) = lines_errors L lines2 w"
    by (simp add: run e)
  show "totalLines (snd (deriveAddressesFromFile L lines1 lines2 path w no_fault)) = countLines lines1 0"
    by (simp add: run t)
qed

lemma run_progress:
  assumes "length lines2 \<le> 2 ^ 53"
  shows "stdout (snd (deriveAddressesFromFile L lines1 lines2 path w no_fault)) =
           progress_events (countLines lines1 0) 0 (length lines2) @ [ResultsWritten path]"
    and "processedLines (snd (deriveAddressesFromFile L lines1 lines2 path w no_fault)) = length lines2"
proof -
  let ?s1 = "(initial w no_fault)\<lparr>totalLines := countLines lines1 (totalLines (initial w no_fault))\<rparr>"
  obtain r s2 where p: "processLines L lines2 ?s1 = (r, s2)"
    by (cases "processLines L lines2 ?s1")
  have w1: "writable (writeStream ?s1)" by (rule writable_initial)
  from processLines_writable [OF w1, of L lines2] p have r: "r = None" by simp
  have le: "processedLines ?s1 + length lines2 \<le> 2 ^ 53"
    using assms by (simp add: initial_def)
  from processLines_progress [OF w1 le, of L] p
  have pr: "processedLines s2 = length lines2"
    and so: "stdout s2 = progress_events (countLines lines1 0) 0 (length lines2)"
    by (simp_all add: initial_def)
  have run: "deriveAddressesFromFile L lines1 lines2 path w no_fault =
      (Completed, s2\<lparr>writeStream := (writeStream s2)\<lparr>ended := True\<rparr>,
                      stdout := stdout s2 @ [ResultsWritten path]\<rparr>)"
    using p r by (simp add: deriveAddressesFromFile_def Let_def)
  show "stdout (snd (deriveAddressesFromFile L lines1 lines2 path w no_fault)) =
           progress_events (countLines lines1 0) 0 (length lines2) @ [ResultsWritten path]"
    by (simp add: run so)
  show "processedLines (snd (deriveAddressesFromFile L lines1 lines2 path w no_fault)) = length lines2"
    by (simp add: run pr)
qed

text \<open>The progress reports of any run, whatever the sink does.\<close>

lemma processLine_report:
  "stdout (snd (processLine L line s)) =
     stdout s @
       (if fst (processLine L line s) = None
        then [Progress (percent (js_incr (processedLines s)) (totalLines s))
                (js_incr (processedLines s)) (totalLines s)]
        else [])"
  "fst (processLine L line s) = None \<Longrightarrow>
     processedLines (snd (processLine L line s)) = js_incr (processedLines s)"
  by (auto simp: processLine_def try_block_def catch_block_def write_chunk_def Let_def
      split: prod.splits sum.splits option.splits)

lemma processLines_reports:
  assumes "(js_incr ^^ length ls) (processedLines s) \<le> totalLines s"
    and "Progress pc p t \<in> set (stdout (snd (processLines L ls s)))"
  shows "Progress pc p t \<in> set (stdout s) \<or>
         (0 < t \<and> 1 \<le> p \<and> p \<le> t \<and> pc = percent p t \<and> in_percent_range pc)"
  using assms
proof (induction ls arbitrary: s)
  case Nil
  then show ?case by simp
next
  case (Cons line rest)
  let ?p = "js_incr (processedLines s)"
  obtain r s1 where pl: "processLine L line s = (r, s1)" by (cases "processLine L line s")
  show ?case
  proof (cases r)
    case (Some e)
    with pl processLine_report(1) [of L line s] Cons.prems(2) show ?thesis by simp
  next
    case None
    from Cons.prems(1) have bound: "(js_incr ^^ length rest) ?p \<le> totalLines s"
      by (simp add: funpow_swap1)
    have le: "?p \<le> totalLines s"
      using js_incr_funpow_ge [of ?p "length rest"] bound by simp
    have pos: "1 \<le> ?p" by (rule js_incr_positive)
    from le pos have t: "0 < totalLines s" by simp
    from None pl processLine_report [of L line s]
    have out: "stdout s1 = stdout s @ [Progress (percent ?p (totalLines s)) ?p (totalLines s)]"
      and pr: "processedLines s1 = ?p"
      by simp_all
    have tl: "totalLines s1 = totalLines s"
      using processLine_totalLines [of L line s] unfolding pl by simp
    from bound pr tl have b1: "(js_incr ^^ length rest) (processedLines s1) \<le> totalLines s1"
      by simp
    from Cons.prems(2) None pl
    have "Progress pc p t \<in> set (stdout (snd (processLines L rest s1)))" by simp
    from Cons.IH [OF b1 this]
    show ?thesis
      using out tl le pos t percent_in_range [OF le t] by auto
  qed
qed

lemma run_reports:
  assumes "Progress pc p t \<in> set (stdout (snd (deriveAddressesFromFile L ls ls path w f)))"
  shows "0 < t \<and> 1 \<le> p \<and> p \<le> t \<and> pc = percent p t \<and> in_percent_range pc"
proof -
  let ?s1 = "(initial w f)\<lparr>totalLines := countLines ls (totalLines (initial w f))\<rparr>"
  obtain r s2 where p: "processLines L ls ?s1 = (r, s2)"
    by (cases "processLines L ls ?s1")
  from assms p have "Progress pc p t \<in> set (stdout s2)"
    by (cases r) (simp_all add: deriveAddressesFromFile_def Let_def)
  then have mem: "Progress pc p t \<in> set (stdout (snd (processLines L ls ?s1)))"
    by (simp add: p)
  have b: "(js_incr ^^ length ls) (processedLines ?s1) \<le> totalLines ?s1"
    by (simp add: initial_def countLines_funpow)
  from processLines_reports [OF b mem] show ?thesis
    by (auto simp: initial_def)
qed

section \<open>The stand-in library: lemmas\<close>

lemma stub_deterministic: "deterministic stub"
  by (simp add: deterministic_def state_free_def stub_def)

lemma stub_zoo: "deriveRippleAddress stub (utf16 ''zoo'') w = (Inr (utf16 ''rzoo''), w + 6)"
  by (simp add: deriveRippleAddress_def bind_def return_def throw_def stub_def utf16_def derivation_path_def)

text \<open>The stand-in library on its two mnemonics and on any other text.\<close>

lemma stub_valid:
  "m = utf16 ''zoo'' \<or> m = utf16 ''abandon about'' \<Longrightarrow>
     deriveRippleAddress stub m w = (Inr (utf16 ''r'' @ m), w + 6)"
  by (auto simp: deriveRippleAddress_def bind_def return_def throw_def stub_def utf16_def
      derivation_path_def)

lemma stub_invalid:
  "m \<noteq> utf16 ''zoo'' \<Longrightarrow> m \<noteq> utf16 ''abandon about'' \<Longrightarrow>
     deriveRippleAddress stub m w = (Inl (Error (utf16 ''Invalid mnemonic'')), w + 1)"
  by (simp add: deriveRippleAddress_def bind_def return_def throw_def stub_def)

lemma stub_garbage: "validateMnemonic stub (utf16 ''not a mnemonic'') w = (Inr False, w + 1)"
  by (simp add: stub_def utf16_def)

lemma trim_examples:
  "trim (utf16 ''zoo'') = utf16 ''zoo''"
  "trim (utf16 '' zoo'') = utf16 ''zoo''"
  "trim (utf16 ''x '') = utf16 ''x''"
  "trim (utf16 ''not a mnemonic'') = utf16 ''not a mnemonic''"
  "trim (utf16 ''abandon about'') = utf16 ''abandon about''"
  "trim (utf16 ''  '') = []"
  "trim [] = []"
  by (simp_all add: trim_def utf16_def is_space_def)

lemma utf16_distinct:
  "utf16 ''x'' \<noteq> utf16 ''zoo''" "utf16 ''x'' \<noteq> utf16 ''abandon about''"
  "utf16 ''not a mnemonic'' \<noteq> utf16 ''zoo''"
  "utf16 ''not a mnemonic'' \<noteq> utf16 ''abandon about''"
  "utf16 ''zoo'' \<noteq> []" "utf16 ''x'' \<noteq> []" "utf16 ''not a mnemonic'' \<noteq> []"
  "utf16 ''abandon about'' \<noteq> []"
  by (simp_all add: utf16_def)

lemma stub_examples:
  "deriveRippleAddress stub (utf16 ''x'') w = (Inl (Error (utf16 ''Invalid mnemonic'')), w + 1)"
  "deriveRippleAddress stub (utf16 ''not a mnemonic'') w =
     (Inl (Error (utf16 ''Invalid mnemonic'')), w + 1)"
  "deriveRippleAddress stub (utf16 ''abandon about'') w =
     (Inr (utf16 ''r'' @ utf16 ''abandon about''), w + 6)"
  by (simp_all add: stub_invalid stub_valid utf16_distinct)

text \<open>
  Some percentages, computed. The third is one less than the whole part of \<open>100 * 29 / 100\<close>.
\<close>

lemma percent_examples:
  "percent 1 2 = Num 50" "percent 2 2 = Num 100" "percent 29 100 = Num 28"
  by code_simp+

lemma percent_examples_Suc:
  "percent (Suc 0) (Suc (Suc 0)) = Num 50" "percent 2 (Suc (Suc 0)) = Num 100"
  using percent_examples by (simp_all add: numeral_2_eq_2)

section \<open>The claims about the derivation engine\<close>

text \<open>
  C1. Determinism: with library entry points whose results do not depend on the ambient
  state of the process, two runs of \<open>deriveRippleAddress\<close> on the same mnemonic, in any
  two states, return the same address (or throw the same error).
\<close>

theorem derive_deterministic:
  "deterministic L \<Longrightarrow> fst (deriveRippleAddress L m w) = fst (deriveRippleAddress L m w')"
  using state_free_derive [of L m] by (simp add: state_free_def)

text \<open>The stand-in library is deterministic; two runs on \<open>zoo\<close>, one in a fresh process
  and one after seven library calls, return the same address.\<close>

theorem derive_deterministic_witness:
  "deterministic stub \<and>
   fst (deriveRippleAddress stub (utf16 ''zoo'') 0) = Inr (utf16 ''rzoo'') \<and>
   fst (deriveRippleAddress stub (utf16 ''zoo'') 7) = Inr (utf16 ''rzoo'')"
  using derive_deterministic [OF stub_deterministic, of "utf16 ''zoo''" 0 7]
  by (simp add: stub_deterministic stub_zoo)

text \<open>
  C3. Validation gate: when \<open>validateMnemonic\<close> returns false, \<open>deriveRippleAddress\<close>
  throws the error \<open>Invalid mnemonic\<close> in the state the validation left, and the
  validation is the only library call made: no seed is computed and no key is derived.
\<close>

theorem invalid_mnemonic_rejected:
  assumes "fst (validateMnemonic L m w) = Inr False"
  shows "deriveRippleAddress L m w =
           (Inl (Error (utf16 ''Invalid mnemonic'')), snd (validateMnemonic L m w)) \<and>
         snd (snd (deriveRippleAddress (traced L) m (w, cs))) = cs @ [ValidateMnemonic m]"
proof -
  from assms have "fst (validateMnemonic (traced L) m (w, cs)) = Inr False"
    by (simp add: traced_validate)
  from invalid_only_validates [OF this] invalid_only_validates [OF assms]
  show ?thesis by (simp add: traced_validate)
qed

text \<open>The line \<open>not a mnemonic\<close> with the stand-in library.\<close>

theorem invalid_mnemonic_rejected_witness:
  "fst (validateMnemonic stub (utf16 ''not a mnemonic'') 0) = Inr False \<and>
   deriveRippleAddress stub (utf16 ''not a mnemonic'') 0 =
     (Inl (Error (utf16 ''Invalid mnemonic'')), 1) \<and>
   snd (snd (deriveRippleAddress (traced stub) (utf16 ''not a mnemonic'') (0, []))) =
     [ValidateMnemonic (utf16 ''not a mnemonic'')]"
  using invalid_mnemonic_rejected [of stub "utf16 ''not a mnemonic''" 0 "[]"]
  by (simp add: stub_garbage)

text \<open>
  C4. Fixed path: when the mnemonic is valid and every step succeeds, the address is the
  encoding of the public key of the node that \<open>derivePath\<close> returns for the master node
  of the seed of the mnemonic; the library is called six times, in this order, and
  \<open>derivePath\<close> receives the literal \<open>m/44'/144'/0'/0/0\<close>, that is purpose 44, coin 144
  and account 0, all hardened, then change 0 and index 0. No run of
  \<open>deriveRippleAddress\<close>, with any library, mnemonic or state, hands \<open>derivePath\<close>
  another path.
\<close>

theorem derive_fixed_path:
  assumes "validateMnemonic L m w0 = (Inr True, w1)"
    and "mnemonicToSeed L m w1 = (Inr seed, w2)"
    and "fromSeedBuffer L seed w2 = (Inr master, w3)"
    and "derivePath L master (utf16 derivation_path) w3 = (Inr node, w4)"
    and "getKeyPairs L node w4 = (Inr keys, w5)"
    and "deriveAddress L (publicKey keys) w5 = (Inr address, w6)"
  shows "deriveRippleAddress L m w0 = (Inr address, w6) \<and>
         snd (snd (deriveRippleAddress (traced L) m (w0, []))) =
           [ValidateMnemonic m, MnemonicToSeed m, FromSeedBuffer,
            DerivePath (utf16 derivation_path), GetKeyPairs, DeriveAddress (publicKey keys)] \<and>
         parse_path derivation_path =
           Some [Hardened 44, Hardened 144, Hardened 0, Normal 0, Normal 0] \<and>
         (\<forall>L' :: ('w, 'seed, 'node) lib. \<forall>m' w' p.
            DerivePath p \<in> set (snd (snd (deriveRippleAddress (traced L') m' (w', [])))) \<longrightarrow>
            p = utf16 derivation_path)"
proof (intro conjI allI impI)
  show "deriveRippleAddress L m w0 = (Inr address, w6)"
    using assms by (rule derive_success(1))
  show "snd (snd (deriveRippleAddress (traced L) m (w0, []))) =
           [ValidateMnemonic m, MnemonicToSeed m, FromSeedBuffer,
            DerivePath (utf16 derivation_path), GetKeyPairs, DeriveAddress (publicKey keys)]"
    using derive_success(2) [OF assms, of "[]"] by simp
  show "parse_path derivation_path =
           Some [Hardened 44, Hardened 144, Hardened 0, Normal 0, Normal 0]"
    by (rule parse_derivation_path)
next
  fix L' :: "('w, 'seed, 'node) lib" and m' w' p
  assume "DerivePath p \<in> set (snd (snd (deriveRippleAddress (traced L') m' (w', []))))"
  from derive_paths [OF this] show "p = utf16 derivation_path" by simp
qed

text \<open>The mnemonic \<open>zoo\<close> with the stand-in library, which refuses every other path.\<close>

theorem derive_fixed_path_witness:
  "deriveRippleAddress stub (utf16 ''zoo'') 0 = (Inr (utf16 ''rzoo''), 6) \<and>
   snd (snd (deriveRippleAddress (traced stub) (utf16 ''zoo'') (0, []))) =
     [ValidateMnemonic (utf16 ''zoo''), MnemonicToSeed (utf16 ''zoo''), FromSeedBuffer,
      DerivePath (utf16 ''m/44'/144'/0'/0/0''), GetKeyPairs, DeriveAddress (utf16 ''zoo'')]"
proof -
  have v: "validateMnemonic stub (utf16 ''zoo'') 0 = (Inr True, 1)"
    by (simp add: stub_def utf16_def)
  have s: "mnemonicToSeed stub (utf16 ''zoo'') 1 = (Inr (utf16 ''zoo''), 2)"
    by (simp add: stub_def)
  have r: "fromSeedBuffer stub (utf16 ''zoo'') 2 = (Inr (utf16 ''zoo''), 3)"
    by (simp add: stub_def)
  have d: "derivePath stub (utf16 ''zoo'') (utf16 derivation_path) 3 = (Inr (utf16 ''zoo''), 4)"
    by (simp add: stub_def derivation_path_def)
  have k: "getKeyPairs stub (utf16 ''zoo'') 4 =
             (Inr \<lparr>privateKey = rev (utf16 ''zoo''), publicKey = utf16 ''zoo''\<rparr>, 5)"
    by (simp add: stub_def)
  have a: "deriveAddress stub (publicKey \<lparr>privateKey = rev (utf16 ''zoo''), publicKey = utf16 ''zoo''\<rparr>) 5 =
             (Inr (utf16 ''rzoo''), 6)"
    by (simp add: stub_def utf16_def)
  note th = derive_fixed_path [OF v s r d k a]
  have 1: "deriveRippleAddress stub (utf16 ''zoo'') 0 = (Inr (utf16 ''rzoo''), 6)"
    using th by (rule conjunct1)
  have 2: "snd (snd (deriveRippleAddress (traced stub) (utf16 ''zoo'') (0, []))) =
     [ValidateMnemonic (utf16 ''zoo''), MnemonicToSeed (utf16 ''zoo''), FromSeedBuffer,
      DerivePath (utf16 ''m/44'/144'/0'/0/0''), GetKeyPairs, DeriveAddress (utf16 ''zoo'')]"
    using th [THEN conjunct2, THEN conjunct1] by (simp add: derivation_path_def)
  from 1 2 show ?thesis by (rule conjI)
qed

section \<open>The claims about the batch runner\<close>

text \<open>
  C2. Failure isolation: with a sink that accepts every write, when the derivation for a
  line that is not blank throws, the run still completes; the error is reported on the
  diagnostic channel, the record of that line is the error record, it stands after the
  records of the lines before it, and the records of all the lines after it follow, one
  for each line that is not blank.
\<close>

theorem failure_isolated:
  assumes "\<not> blank line"
    and "fst (deriveRippleAddress L (trim line) (lines_world L pre w)) = Inl err"
  shows "fst (deriveAddressesFromFile L lines1 (pre @ line # post) path w no_fault) = Completed \<and>
         chunks (writeStream (snd (deriveAddressesFromFile L lines1 (pre @ line # post) path w no_fault))) =
           lines_records L pre w @
           [trim line @ utf16 ''|Error deriving address'' @ [0x0A]] @
           lines_records L post (lines_world L (pre @ [line]) w) \<and>
         length (lines_records L post (lines_world L (pre @ [line]) w)) =
           length (filter (\<lambda>l. \<not> blank l) post) \<and>
         ErrorDeriving (trim line) err \<in>
           set (stderr (snd (deriveAddressesFromFile L lines1 (pre @ line # post) path w no_fault)))"
proof -
  have rec: "lines_records L (pre @ line # post) w =
      lines_records L pre w @ [trim line @ utf16 ''|Error deriving address'' @ [0x0A]] @
      lines_records L post (lines_world L (pre @ [line]) w)"
    using assms by (simp add: lines_records_append lines_world_append record_text_def)
  have err: "ErrorDeriving (trim line) err \<in> set (lines_errors L (pre @ line # post) w)"
    using assms by (simp add: lines_errors_append)
  show ?thesis
    by (simp only: run_writable rec err length_lines_records simp_thms)
qed

text \<open>
  Three lines, the second not a mnemonic.
\<close>

theorem failure_isolated_witness:
  "\<not> blank (utf16 ''not a mnemonic'') \<and>
   fst (deriveRippleAddress stub (trim (utf16 ''not a mnemonic'')) (lines_world stub [utf16 ''zoo''] 0)) =
     Inl (Error (utf16 ''Invalid mnemonic'')) \<and>
   fst (deriveAddressesFromFile stub
          [utf16 ''zoo'', utf16 ''not a mnemonic'', utf16 ''abandon about'']
          ([utf16 ''zoo''] @ utf16 ''not a mnemonic'' # [utf16 ''abandon about''])
          (utf16 ''XRP.txt'') 0 no_fault) = Completed \<and>
   chunks (writeStream (snd (deriveAddressesFromFile stub
          [utf16 ''zoo'', utf16 ''not a mnemonic'', utf16 ''abandon about'']
          ([utf16 ''zoo''] @ utf16 ''not a mnemonic'' # [utf16 ''abandon about''])
          (utf16 ''XRP.txt'') 0 no_fault))) =
     [utf16 ''zoo'' @ utf16 ''|'' @ utf16 ''rzoo'' @ [0x0A],
      utf16 ''not a mnemonic'' @ utf16 ''|Error deriving address'' @ [0x0A],
      utf16 ''abandon about'' @ utf16 ''|'' @ utf16 ''r'' @ utf16 ''abandon about'' @ [0x0A]]"
proof -
  have b: "\<not> blank (utf16 ''not a mnemonic'')"
    by (simp add: blank_def trim_examples utf16_distinct)
  have e: "fst (deriveRippleAddress stub (trim (utf16 ''not a mnemonic'')) (lines_world stub [utf16 ''zoo''] 0)) =
     Inl (Error (utf16 ''Invalid mnemonic''))"
    by (simp add: trim_examples stub_examples)
  from failure_isolated [OF b e, of "[utf16 ''zoo'', utf16 ''not a mnemonic'', utf16 ''abandon about'']"
      "[utf16 ''abandon about'']" "utf16 ''XRP.txt''"] b e
  show ?thesis
    by (simp add: blank_def trim_examples utf16_distinct stub_zoo stub_examples record_text_def)
qed

text \<open>
  C5. Order preservation: with a sink that accepts every write, the output holds one
  record for each line that is not blank, in the order of the lines, and the record of
  a line starts with the trimmed line followed by \<open>|\<close> and ends with a line break.
\<close>

theorem order_preserved:
  "list_all2 (\<lambda>line chunk. \<exists>payload. chunk = trim line @ utf16 ''|'' @ payload @ [0x0A])
     (filter (\<lambda>line. \<not> blank line) lines2)
     (chunks (writeStream (snd (deriveAddressesFromFile L lines1 lines2 path w no_fault))))"
  by (simp only: run_writable lines_records_shape)

text \<open>Three lines, the second blank, the third not a mnemonic.\<close>

theorem order_preserved_witness:
  "list_all2 (\<lambda>line chunk. \<exists>payload. chunk = trim line @ utf16 ''|'' @ payload @ [0x0A])
     [utf16 '' zoo'', utf16 ''x '']
     (chunks (writeStream (snd (deriveAddressesFromFile stub
        [utf16 '' zoo'', utf16 ''  '', utf16 ''x ''] [utf16 '' zoo'', utf16 ''  '', utf16 ''x '']
        (utf16 ''XRP.txt'') 0 no_fault)))) \<and>
   chunks (writeStream (snd (deriveAddressesFromFile stub
        [utf16 '' zoo'', utf16 ''  '', utf16 ''x ''] [utf16 '' zoo'', utf16 ''  '', utf16 ''x '']
        (utf16 ''XRP.txt'') 0 no_fault))) =
     [utf16 ''zoo'' @ utf16 ''|'' @ utf16 ''rzoo'' @ [0x0A],
      utf16 ''x'' @ utf16 ''|Error deriving address'' @ [0x0A]]"
proof -
  have f: "filter (\<lambda>line. \<not> blank line) [utf16 '' zoo'', utf16 ''  '', utf16 ''x ''] =
      [utf16 '' zoo'', utf16 ''x '']"
    by (simp add: blank_def trim_examples utf16_distinct)
  have c: "chunks (writeStream (snd (deriveAddressesFromFile stub
        [utf16 '' zoo'', utf16 ''  '', utf16 ''x ''] [utf16 '' zoo'', utf16 ''  '', utf16 ''x '']
        (utf16 ''XRP.txt'') 0 no_fault))) =
     [utf16 ''zoo'' @ utf16 ''|'' @ utf16 ''rzoo'' @ [0x0A],
      utf16 ''x'' @ utf16 ''|Error deriving address'' @ [0x0A]]"
    by (simp add: run_writable blank_def trim_examples utf16_distinct stub_zoo stub_examples
        record_text_def)
  from order_preserved [of "[utf16 '' zoo'', utf16 ''  '', utf16 ''x '']" stub
      "[utf16 '' zoo'', utf16 ''  '', utf16 ''x '']" "utf16 ''XRP.txt''" 0]
  have "list_all2 (\<lambda>line chunk. \<exists>payload. chunk = trim line @ utf16 ''|'' @ payload @ [0x0A])
     [utf16 '' zoo'', utf16 ''x '']
     (chunks (writeStream (snd (deriveAddressesFromFile stub
        [utf16 '' zoo'', utf16 ''  '', utf16 ''x ''] [utf16 '' zoo'', utf16 ''  '', utf16 ''x '']
        (utf16 ''XRP.txt'') 0 no_fault))))"
    by (simp only: f)
  with c show ?thesis by (rule conjI [rotated])
qed

text \<open>
  C6. The record of a line. The record does not start with the line as it was read: a
  line with a space before the mnemonic is written without the space.
\<close>

theorem record_keeps_line_counterexample:
  "fst (deriveRippleAddress stub (trim (utf16 '' zoo'')) 0) = Inr (utf16 ''rzoo'') \<and>
   chunks (writeStream (snd (processLine stub (utf16 '' zoo'') (initial 0 no_fault)))) \<noteq>
     [utf16 '' zoo'' @ utf16 ''|'' @ utf16 ''rzoo'' @ [0x0A]]"
proof -
  have b: "\<not> blank (utf16 '' zoo'')"
    by (simp add: blank_def trim_examples utf16_distinct)
  have ok: "fault (writeStream (initial (0::nat) no_fault)) (attempts (writeStream (initial (0::nat) no_fault))) = None"
    by (simp add: initial_def no_fault_def)
  have c: "chunks (writeStream (snd (processLine stub (utf16 '' zoo'') (initial 0 no_fault)))) =
      [utf16 ''zoo'' @ utf16 ''|'' @ utf16 ''rzoo'' @ [0x0A]]"
    unfolding processLine_ok [OF ok b]
    by (simp add: initial_def trim_examples stub_zoo record_text_def)
  have d: "fst (deriveRippleAddress stub (trim (utf16 '' zoo'')) 0) = Inr (utf16 ''rzoo'')"
    by (simp add: trim_examples stub_zoo)
  have "[utf16 ''zoo'' @ utf16 ''|'' @ utf16 ''rzoo'' @ [0x0A]] \<noteq>
      [utf16 '' zoo'' @ utf16 ''|'' @ utf16 ''rzoo'' @ [0x0A]]"
    by (simp add: utf16_def)
  with c d show ?thesis by simp
qed

text \<open>
  C6, as the program has it: when the write succeeds, the record of a line that is not
  blank is the trimmed line, then \<open>|\<close>, then the address if the derivation returned one
  and the text \<open>Error deriving address\<close> if it threw, then a line break; it is the one
  chunk added to the output.
\<close>

theorem record_of_line:
  assumes "\<not> blank line" and "fault (writeStream s) (attempts (writeStream s)) = None"
  shows "chunks (writeStream (snd (processLine L line s))) =
           chunks (writeStream s) @
           [case fst (deriveRippleAddress L (trim line) (world s)) of
              Inr address \<Rightarrow> trim line @ utf16 ''|'' @ address @ [0x0A]
            | Inl err \<Rightarrow> trim line @ utf16 ''|Error deriving address'' @ [0x0A]]"
  using processLine_ok [OF assms(2) assms(1), of L]
  by (simp add: record_text_def)

text \<open>
  The lines \<open>zoo\<close>, with a space before it, and \<open>x\<close>, with a space after it.
\<close>

theorem record_of_line_witness:
  "\<not> blank (utf16 '' zoo'') \<and> \<not> blank (utf16 ''x '') \<and>
   chunks (writeStream (snd (processLine stub (utf16 '' zoo'') (initial 0 no_fault)))) =
     [utf16 ''zoo'' @ utf16 ''|'' @ utf16 ''rzoo'' @ [0x0A]] \<and>
   chunks (writeStream (snd (processLine stub (utf16 ''x '') (initial 0 no_fault)))) =
     [utf16 ''x'' @ utf16 ''|Error deriving address'' @ [0x0A]]"
proof -
  have b: "\<not> blank (utf16 '' zoo'')" "\<not> blank (utf16 ''x '')"
    by (simp_all add: blank_def trim_examples utf16_distinct)
  have ok: "fault (writeStream (initial (0::nat) no_fault)) (attempts (writeStream (initial (0::nat) no_fault))) = None"
    by (simp add: initial_def no_fault_def)
  from record_of_line [OF b(1) ok, of stub] record_of_line [OF b(2) ok, of stub] b
  show ?thesis
    by (simp add: initial_def trim_examples stub_zoo stub_examples)
qed

text \<open>
  C7. Blank lines: for a line that is blank after trimming, the body of the loop writes
  nothing, leaves the ambient state alone (the instrumented library logs no call), adds
  one to the processed count, reports the progress and does not fail; and the first
  reader counts the line like any other, so that it is part of the total. (Counters are
  exact below \<open>2^53\<close>.)
\<close>

theorem blank_line_skipped:
  assumes "blank line" and "processedLines s < 2 ^ 53" and "length pre + length post < 2 ^ 53"
  shows "processLine L line s =
           (None, s\<lparr>processedLines := processedLines s + 1,
                    stdout := stdout s @
                      [Progress (percent (processedLines s + 1) (totalLines s))
                         (processedLines s + 1) (totalLines s)]\<rparr>) \<and>
         snd (world (snd (processLine (traced L) line t))) = snd (world t) \<and>
         writeStream (snd (processLine L line s)) = writeStream s \<and>
         countLines (pre @ line # post) 0 = countLines (pre @ post) 0 + 1"
  using assms
  by (simp add: processLine_blank show_progress_def Let_def countLines_length js_incr_def)

text \<open>
  A line of two spaces, the first of two lines to be processed; and a file of two lines,
  the second blank.
\<close>

theorem blank_line_skipped_witness:
  "blank (utf16 ''  '') \<and>
   processLine stub (utf16 ''  '') ((initial 0 no_fault)\<lparr>totalLines := 2\<rparr>) =
     (None, (initial 0 no_fault)\<lparr>totalLines := 2, processedLines := 1,
        stdout := [Progress (Num 50) 1 2]\<rparr>) \<and>
   countLines ([utf16 ''zoo''] @ utf16 ''  '' # []) 0 = 2"
proof -
  have b: "blank (utf16 ''  '')" by (simp add: blank_def trim_examples)
  have p: "processedLines ((initial (0::nat) no_fault)\<lparr>totalLines := 2\<rparr>) < 2 ^ 53"
    by (simp add: initial_def)
  have l: "length [utf16 ''zoo''] + length ([] :: js_string list) < 2 ^ 53" by simp
  from blank_line_skipped [OF b p l, where L = stub and t = "initial (0, []) no_fault"] b
  show ?thesis
    by (simp add: initial_def percent_examples_Suc countLines_length numeral_2_eq_2)
qed

text \<open>
  C8. Counting and progress. The percentage is not always the whole part of
  \<open>100 * processed / total\<close>: in a run over a hundred lines the report after line 29 shows
  28 percent. The double nearest to \<open>29 / 100\<close> lies below it, and its product with 100
  rounds to \<open>28.999999999999996\<close>.
\<close>

theorem progress_exact_counterexample:
  "stdout (snd (deriveAddressesFromFile stub (replicate 100 []) (replicate 100 [])
      (utf16 ''XRP.txt'') 0 no_fault)) ! 28 = Progress (Num 28) 29 100 \<and>
   \<lfloor>(29::rat) / 100 * 100\<rfloor> = 29"
proof -
  have l: "length (replicate 100 ([] :: js_string)) \<le> 2 ^ 53" by simp
  have n: "map (\<lambda>k. Progress (percent k 100) k 100) [Suc 0 ..< 101] ! 28 = Progress (percent 29 100) 29 100"
    by (simp add: nth_map nth_upt)
  have "stdout (snd (deriveAddressesFromFile stub (replicate 100 []) (replicate 100 [])
      (utf16 ''XRP.txt'') 0 no_fault)) ! 28 = Progress (percent 29 100) 29 100"
    using n by (simp add: run_progress(1) [OF l] progress_events_def countLines_length nth_append)
  then show ?thesis by (simp add: percent_examples)
qed

text \<open>
  C8, as the program has it: the first reader counts every line, blank or not, calls no
  library entry point and writes nothing; with a sink that accepts every write, the
  report after the \<open>k\<close>-th line of the second reader shows \<open>k\<close> lines processed of the
  total and the percentage \<open>Math.floor((k / total) * 100)\<close>, where the quotient and the
  product are those of double arithmetic; the percentage is within one of the whole
  part of \<open>100 * k / total\<close>. (Counters are exact up to \<open>2^53\<close>.)
\<close>

theorem progress_reported:
  assumes "length lines1 \<le> 2 ^ 53" and "length lines2 \<le> 2 ^ 53"
  shows "totalLines (snd (deriveAddressesFromFile L lines1 lines2 path w no_fault)) = length lines1 \<and>
         stdout (snd (deriveAddressesFromFile L lines1 lines2 path w no_fault)) =
           map (\<lambda>k. Progress (percent k (length lines1)) k (length lines1))
             [1 ..< Suc (length lines2)] @ [ResultsWritten path] \<and>
         world (snd (deriveAddressesFromFile (traced L) lines1 [] path (w, cs) f)) = (w, cs) \<and>
         chunks (writeStream (snd (deriveAddressesFromFile L lines1 [] path w f))) = [] \<and>
         (0 < t \<longrightarrow>
            percent p t =
              Num (of_int \<lfloor>round_double (round_double (of_nat p / of_nat t) * 100)\<rfloor>)) \<and>
         (0 < t \<and> p \<le> t \<longrightarrow>
            (\<exists>k. percent p t = Num (of_int k) \<and> \<bar>k - int ((100 * p) div t)\<bar> \<le> 1))"
proof -
  from assms(1) have n: "countLines lines1 0 = length lines1"
    by (simp add: countLines_length)
  have a: "totalLines (snd (deriveAddressesFromFile L lines1 lines2 path w no_fault)) = length lines1"
    by (simp add: run_writable n)
  have b: "stdout (snd (deriveAddressesFromFile L lines1 lines2 path w no_fault)) =
           map (\<lambda>k. Progress (percent k (length lines1)) k (length lines1))
             [1 ..< Suc (length lines2)] @ [ResultsWritten path]"
    by (simp add: run_progress(1) [OF assms(2)] n progress_events_def)
  have c: "world (snd (deriveAddressesFromFile (traced L) lines1 [] path (w, cs) f)) = (w, cs)"
    by (simp add: deriveAddressesFromFile_def initial_def)
  have d: "chunks (writeStream (snd (deriveAddressesFromFile L lines1 [] path w f))) = []"
    by (simp add: deriveAddressesFromFile_def initial_def)
  have e: "0 < t \<longrightarrow>
            percent p t =
              Num (of_int \<lfloor>round_double (round_double (of_nat p / of_nat t) * 100)\<rfloor>)"
    by (simp add: percent_def js_div_def js_mul100_def js_floor_def)
  have g: "0 < t \<and> p \<le> t \<longrightarrow>
            (\<exists>k. percent p t = Num (of_int k) \<and> \<bar>k - int ((100 * p) div t)\<bar> \<le> 1)"
    using percent_close [of p t] by blast
  from a b c d e g show ?thesis by (intro conjI)
qed

text \<open>
  Two lines, the second blank; and the report of line 29 of 100.
\<close>

theorem progress_reported_witness:
  "totalLines (snd (deriveAddressesFromFile stub [utf16 ''zoo'', utf16 ''  ''] [utf16 ''zoo'', utf16 ''  '']
      (utf16 ''XRP.txt'') 0 no_fault)) = 2 \<and>
   stdout (snd (deriveAddressesFromFile stub [utf16 ''zoo'', utf16 ''  ''] [utf16 ''zoo'', utf16 ''  '']
      (utf16 ''XRP.txt'') 0 no_fault)) =
     [Progress (Num 50) 1 2, Progress (Num 100) 2 2, ResultsWritten (utf16 ''XRP.txt'')] \<and>
   percent 29 100 = Num 28 \<and> \<bar>28 - int ((100 * 29) div 100)\<bar> \<le> 1"
proof -
  have l: "length [utf16 ''zoo'', utf16 ''  ''] \<le> 2 ^ 53" by simp
  have u: "[1 ..< Suc (length [utf16 ''zoo'', utf16 ''  ''])] = [1, 2]"
    by (simp add: upt_rec)
  from progress_reported [OF l l, where L = stub and path = "utf16 ''XRP.txt''" and w = 0
      and cs = "[]" and f = no_fault and t = 0 and p = 0]
  show ?thesis
    unfolding u by (simp add: percent_examples_Suc percent_examples)
qed

text \<open>
  C9. An unwritable sink. With a sink that fails every write (a full disk), and the one
  line \<open>zoo\<close>, whose derivation succeeds: the failure of the write is caught by the
  \<open>catch\<close> of the loop body and reported as an error of the derivation; the error record
  is attempted, and the failure of that second write leaves the listener as an unhandled
  rejection. The handler of lines 89-91 reports nothing.
\<close>

theorem unwritable_sink_run:
  "fst (deriveAddressesFromFile stub [utf16 ''zoo''] [utf16 ''zoo''] (utf16 ''XRP.txt'') 0 (fault_from 0)) =
     UnhandledRejection (Error (utf16 ''ENOSPC'')) \<and>
   stderr (snd (deriveAddressesFromFile stub [utf16 ''zoo''] [utf16 ''zoo''] (utf16 ''XRP.txt'') 0 (fault_from 0))) =
     [ErrorDeriving (utf16 ''zoo'') (Error (utf16 ''ENOSPC''))] \<and>
   attempts (writeStream (snd (deriveAddressesFromFile stub [utf16 ''zoo''] [utf16 ''zoo'']
     (utf16 ''XRP.txt'') 0 (fault_from 0)))) = 2 \<and>
   chunks (writeStream (snd (deriveAddressesFromFile stub [utf16 ''zoo''] [utf16 ''zoo'']
     (utf16 ''XRP.txt'') 0 (fault_from 0)))) = []"
  by (simp add: deriveAddressesFromFile_def processLine_def try_block_def catch_block_def
      write_chunk_def initial_def fault_from_def trim_examples utf16_distinct stub_zoo Let_def)

text \<open>
  C10. Progress is well defined: when both readers see the same lines, every report of
  a run, whatever the library and the sink do, has a positive total, a processed count
  from 1 to the total, and a percentage that is a whole number from 0 to 100.
\<close>

theorem progress_well_defined:
  assumes "Progress pc p t \<in> set (stdout (snd (deriveAddressesFromFile L ls ls path w f)))"
  shows "0 < t \<and> 1 \<le> p \<and> p \<le> t \<and> pc = percent p t \<and> in_percent_range pc"
  using assms by (rule run_reports)

text \<open>
  The first report of a run over two lines.
\<close>

theorem progress_well_defined_witness:
  "Progress (Num 50) 1 2 \<in> set (stdout (snd (deriveAddressesFromFile stub
      [utf16 ''zoo'', utf16 ''  ''] [utf16 ''zoo'', utf16 ''  ''] (utf16 ''XRP.txt'') 0 no_fault))) \<and>
   (0::nat) < 2 \<and> (1::nat) \<le> 1 \<and> (1::nat) \<le> 2 \<and> Num 50 = percent 1 2 \<and> in_percent_range (Num 50)"
proof -
  have l: "length [utf16 ''zoo'', utf16 ''  ''] \<le> 2 ^ 53" by simp
  have m: "Progress (Num 50) 1 2 \<in> set (stdout (snd (deriveAddressesFromFile stub
      [utf16 ''zoo'', utf16 ''  ''] [utf16 ''zoo'', utf16 ''  ''] (utf16 ''XRP.txt'') 0 no_fault)))"
    by (simp add: run_progress(1) [OF l] progress_events_def countLines_length upt_rec
        percent_examples_Suc)
  have r: "(0::nat) < 2 \<and> (1::nat) \<le> 1 \<and> (1::nat) \<le> 2 \<and> Num 50 = percent 1 2 \<and>
      in_percent_range (Num 50)"
    by (rule progress_well_defined [OF m])
  from m r show ?thesis by (rule conjI)
qed

end
